theory Spec2Isabelle
  imports Complex_Main
begin

section \<open>JavaScript values\<close>

text \<open>
  The route handlers read \<open>req.body\<close>, which Express types as \<open>any\<close>: a field of a parsed
  JSON body may hold any JSON value, or be missing (\<open>undefined\<close>). Strings are
  \<^typ>\<open>string\<close>, one \<^typ>\<open>char\<close> per code unit below 256. An object is the list of its own
  properties.

  A number reaches the handlers as a double, and they do two things with it: test it for
  truth and convert it to a string. It is given here by the string that \<open>Number::toString\<close>
  prints for it (\<open>0\<close>, \<open>413\<close>, \<open>-2.5\<close>, \<open>1.5e+21\<close>), which determines the number up to the
  sign of zero.
\<close>

datatype jsval =
    JUndefined
  | JNull
  | JBool bool
  | JNum string
  | JStr string
  | JArr "jsval list"
  | JObj "(string \<times> jsval) list"

datatype js_exception = TypeError | RangeError

text \<open>
  \<open>ToBoolean\<close>: what \<open>!x\<close> and \<open>x || y\<close> test. The falsy numbers are \<open>+0\<close> and \<open>-0\<close>, which
  both print as \<open>0\<close>, and \<open>NaN\<close>; no other number prints as either.
\<close>

fun truthy :: "jsval \<Rightarrow> bool" where
  "truthy JUndefined = False"
| "truthy JNull = False"
| "truthy (JBool b) = b"
| "truthy (JNum t) = (t \<noteq> ''0'' \<and> t \<noteq> ''NaN'')"
| "truthy (JStr s) = (s \<noteq> [])"
| "truthy (JArr xs) = True"
| "truthy (JObj kvs) = True"

text \<open>\<open>a || b\<close> yields \<open>a\<close> when it is truthy and \<open>b\<close> otherwise.\<close>

definition js_or :: "jsval \<Rightarrow> jsval \<Rightarrow> jsval" where
  "js_or a b = (if truthy a then a else b)"

fun isArray :: "jsval \<Rightarrow> bool" where
  "isArray (JArr xs) = True"
| "isArray v = False"

text \<open>
  \<open>const { email } = req.body\<close>: the own property of the body object, \<open>undefined\<close> when the
  body has none of that name (no prototype defines \<open>email\<close> or \<open>emails\<close>). The body is
  the list of the properties of the object that the JSON parser hands to the route.
\<close>

definition get_field :: "(string \<times> jsval) list \<Rightarrow> string \<Rightarrow> jsval" where
  "get_field body k = (case map_of body k of None \<Rightarrow> JUndefined | Some v \<Rightarrow> v)"

subsection \<open>The call stack\<close>

text \<open>
  Two computations of the handlers recurse on the nesting of a value, and throw a
  \<open>RangeError\<close> when the call stack is exhausted: the conversion of an array to a string,
  which calls \<open>Array.prototype.join\<close> once for each level of arrays, and
  \<open>JSON.stringify\<close> inside \<open>res.json\<close>, which descends into arrays and objects. How far
  each can go depends on the engine; \<open>join_room\<close> is the number of nested calls of \<open>join\<close>
  that the stack has room for, and \<open>stringify_room\<close> is the number of levels of arrays and
  objects that an entry echoed in the results of \<open>/batch\<close> may have.
\<close>

record stack_room =
  join_room :: nat
  stringify_room :: nat

subsection \<open>Conversion to a string\<close>

fun join :: "string \<Rightarrow> string list \<Rightarrow> string" where
  "join sep [] = []"
| "join sep [s] = s"
| "join sep (s # t # ss) = s @ sep @ join sep (t # ss)"

text \<open>
  \<open>ToString\<close>, which \<open>RegExp.prototype.test\<close> applies to its argument; \<open>room\<close> is the number
  of nested calls of \<open>join\<close> that the stack still has room for. An array prints its
  elements joined by commas, \<open>null\<close> and \<open>undefined\<close> elements as the empty string, the
  elements from left to right; with no room left the call of \<open>join\<close> throws a
  \<open>RangeError\<close>. A parsed JSON object inherits \<open>Object.prototype.toString\<close> and prints as
  \<open>[object Object]\<close>, unless it has an own property \<open>toString\<close>: that value is never
  callable, \<open>valueOf\<close> returns the object itself, and the conversion throws a
  \<open>TypeError\<close>.
\<close>

fun ToString :: "nat \<Rightarrow> jsval \<Rightarrow> js_exception + string"
  and element_strings :: "nat \<Rightarrow> jsval list \<Rightarrow> js_exception + string list" where
  "ToString room JUndefined = Inr ''undefined''"
| "ToString room JNull = Inr ''null''"
| "ToString room (JBool b) = Inr (if b then ''true'' else ''false'')"
| "ToString room (JNum t) = Inr t"
| "ToString room (JStr s) = Inr s"
| "ToString 0 (JArr xs) = Inl RangeError"
| "ToString (Suc room) (JArr xs) =
     (case element_strings room xs of Inl e \<Rightarrow> Inl e | Inr ss \<Rightarrow> Inr (join '','' ss))"
| "ToString room (JObj kvs) =
     (if ''toString'' \<in> set (map fst kvs) then Inl TypeError else Inr ''[object Object]'')"
| "element_strings room [] = Inr []"
| "element_strings room (x # xs) =
     (case (if x = JUndefined \<or> x = JNull then Inr [] else ToString room x) of
        Inl e \<Rightarrow> Inl e
      | Inr s \<Rightarrow> (case element_strings room xs of Inl e \<Rightarrow> Inl e | Inr ss \<Rightarrow> Inr (s # ss)))"

text \<open>The number of levels of arrays and objects in a value.\<close>

fun nesting :: "jsval \<Rightarrow> nat" where
  "nesting (JArr xs) = Suc (fold max (map nesting xs) 0)"
| "nesting (JObj kvs) = Suc (fold max (map (\<lambda>kv. nesting (snd kv)) kvs) 0)"
| "nesting v = 0"

section \<open>The syntax pattern\<close>

text \<open>
  \<open>/^[^\s@]+@[^\s@]+\.[^\s@]+$/\<close> is a sequence of pieces between the anchors \<open>^\<close> and
  \<open>$\<close>; a piece is an atom or an atom under \<open>+\<close>; an atom is a literal character or a
  negated class, whose members are characters and the escape \<open>\s\<close>.
\<close>

datatype class_member = Ch char | WhiteSpace

datatype atom = Lit char | NoneOf "class_member list"

datatype piece = Once atom | OneOrMore atom

text \<open>What \<open>\s\<close> matches among the code units below 256: TAB, LF, VT, FF, CR, SP, NBSP.\<close>

definition is_space :: "char \<Rightarrow> bool" where
  "is_space c = (c \<in> set [CHR 0x09, CHR 0x0A, CHR 0x0B, CHR 0x0C, CHR 0x0D, CHR 0x20, CHR 0xA0])"

fun member_matches :: "class_member \<Rightarrow> char \<Rightarrow> bool" where
  "member_matches (Ch d) c = (c = d)"
| "member_matches WhiteSpace c = is_space c"

fun atom_matches :: "atom \<Rightarrow> char \<Rightarrow> bool" where
  "atom_matches (Lit d) c = (c = d)"
| "atom_matches (NoneOf ms) c = (\<not> list_ex (\<lambda>m. member_matches m c) ms)"

text \<open>
  The backtracking matcher, started at position 0: the whole of the input must be consumed
  when the pieces run out (the \<open>$\<close> anchor). A \<open>+\<close> is greedy: it first tries to take one
  more character, then to hand over to the rest of the pattern.
\<close>

fun match_pieces :: "piece list \<Rightarrow> string \<Rightarrow> bool" where
  "match_pieces [] s = (s = [])"
| "match_pieces (Once a # ps) [] = False"
| "match_pieces (Once a # ps) (c # cs) = (atom_matches a c \<and> match_pieces ps cs)"
| "match_pieces (OneOrMore a # ps) [] = False"
| "match_pieces (OneOrMore a # ps) (c # cs) =
     (atom_matches a c \<and> (match_pieces (OneOrMore a # ps) cs \<or> match_pieces ps cs))"

definition emailPattern :: "piece list" where
  "emailPattern =
     [OneOrMore (NoneOf [WhiteSpace, Ch CHR ''@'']), Once (Lit CHR ''@''),
      OneOrMore (NoneOf [WhiteSpace, Ch CHR ''@'']), Once (Lit CHR ''.''),
      OneOrMore (NoneOf [WhiteSpace, Ch CHR ''@''])]"

subsection \<open>Regular expression objects\<close>

text \<open>
  A \<open>RegExp\<close> object has the pattern and the flags of its literal, and the mutable property
  \<open>lastIndex\<close>, 0 when the object is created. The pattern is one that starts with \<open>^\<close> and
  ends with \<open>$\<close>; of the flags only \<open>g\<close> and \<open>y\<close> are interpreted.
\<close>

record RegExp =
  source :: "piece list"
  flags :: string
  lastIndex :: nat

text \<open>\<open>const emailRegex = /^[^\s@]+@[^\s@]+\.[^\s@]+$/\<close>: a literal without flags.\<close>

definition emailRegex :: RegExp where
  "emailRegex = \<lparr>source = emailPattern, flags = [], lastIndex = 0\<rparr>"

text \<open>
  \<open>re.test(x)\<close> converts the argument to a string, then runs \<open>RegExpBuiltinExec\<close>; the
  result is the boolean and the object as the call leaves it. Without \<open>g\<close> and \<open>y\<close> the
  search starts at position 0 and \<open>lastIndex\<close> is neither read nor written. With \<open>g\<close> or
  \<open>y\<close> the search starts at \<open>lastIndex\<close>; \<open>^\<close> matches at position 0 only, so the search
  succeeds when \<open>lastIndex\<close> is 0 and the whole string matches, and then sets \<open>lastIndex\<close>
  to the end of the match; when it fails it sets \<open>lastIndex\<close> to 0.
\<close>

definition regex_test :: "stack_room \<Rightarrow> RegExp \<Rightarrow> jsval \<Rightarrow> js_exception + bool \<times> RegExp" where
  "regex_test stk re x =
     (case ToString (join_room stk) x of
        Inl e \<Rightarrow> Inl e
      | Inr s \<Rightarrow>
          if CHR ''g'' \<in> set (flags re) \<or> CHR ''y'' \<in> set (flags re) then
            (if lastIndex re = 0 \<and> match_pieces (source re) s
             then Inr (True, re\<lparr>lastIndex := length s\<rparr>)
             else Inr (False, re\<lparr>lastIndex := 0\<rparr>))
          else Inr (match_pieces (source re) s, re))"

section \<open>Validation routes\<close>

record ValidationResult =
  email :: jsval
  valid :: bool
  quality_score :: rat
  checks_syntax_valid :: bool

text \<open>The body of \<open>/validate\<close> adds \<open>metadata\<close> and \<open>note\<close> to the four fields above.\<close>

record ValidateResponse = ValidationResult +
  metadata_processing_time_ms :: nat
  metadata_timestamp :: string
  response_note :: string

record BatchResult =
  results :: "ValidationResult list"
  total :: nat
  valid_count :: nat
  processing_time_ms :: nat

datatype response_body =
    ErrorBody (error: string) (message: string)
  | ValidateBody ValidateResponse
  | BatchBody BatchResult

text \<open>\<open>res.status(n).json(b)\<close>; \<open>res.json(b)\<close> alone answers with status 200.\<close>

record http_response =
  status :: nat
  json :: response_body

text \<open>
  \<open>router.post('/validate')\<close>. The argument \<open>now\<close> is what \<open>new Date().toISOString()\<close>
  reads from the clock. A handler that throws returns \<open>Inl\<close>: no response is sent by the
  handler itself. The handler creates the regular expression, tests the field once, and
  hands the response to \<open>res.json\<close>, where the echoed field sits two levels higher than an
  entry of the results of \<open>/batch\<close> does.
\<close>

definition validate_handler ::
  "stack_room \<Rightarrow> string \<Rightarrow> (string \<times> jsval) list \<Rightarrow> js_exception + http_response" where
  "validate_handler stk now req_body =
     (let em = get_field req_body ''email'' in
      if \<not> truthy em then
        Inr \<lparr>status = 400, json = ErrorBody ''VALIDATION_ERROR'' ''Email is required''\<rparr>
      else
        (case regex_test stk emailRegex em of
           Inl e \<Rightarrow> Inl e
         | Inr (isValid, re) \<Rightarrow>
             if stringify_room stk + 2 < nesting em then Inl RangeError
             else
               Inr \<lparr>status = 200,
                    json = ValidateBody
                      \<lparr>email = em, valid = isValid,
                       quality_score = (if isValid then 0.8 else 0),
                       checks_syntax_valid = isValid,
                       metadata_processing_time_ms = 10,
                       metadata_timestamp = now,
                       response_note = ''Simplified validation - full features coming soon!''\<rparr>\<rparr>))"

text \<open>
  The callback of \<open>emails.map\<close> in \<open>router.post('/batch')\<close>: the object literal evaluates
  \<open>emailRegex.test(email)\<close> three times, in the order of its fields, each call on the
  object as the call before left it.
\<close>

definition batch_entry ::
  "stack_room \<Rightarrow> RegExp \<Rightarrow> jsval \<Rightarrow> js_exception + ValidationResult \<times> RegExp" where
  "batch_entry stk re em =
     (case regex_test stk re em of
        Inl e \<Rightarrow> Inl e
      | Inr (v1, re1) \<Rightarrow>
          (case regex_test stk re1 em of
             Inl e \<Rightarrow> Inl e
           | Inr (v2, re2) \<Rightarrow>
               (case regex_test stk re2 em of
                  Inl e \<Rightarrow> Inl e
                | Inr (v3, re3) \<Rightarrow>
                    Inr (\<lparr>email = em, valid = v1,
                          quality_score = (if v2 then 0.8 else 0),
                          checks_syntax_valid = v3\<rparr>, re3))))"

text \<open>
  \<open>Array.prototype.map\<close> with a callback that may throw and that works on an object it
  shares with the other calls: the first exception ends it, and each call starts from the
  state the call before left.
\<close>

fun array_map ::
  "('s \<Rightarrow> 'a \<Rightarrow> js_exception + 'b \<times> 's) \<Rightarrow> 's \<Rightarrow> 'a list \<Rightarrow> js_exception + 'b list \<times> 's" where
  "array_map f st [] = Inr ([], st)"
| "array_map f st (x # xs) =
     (case f st x of
        Inl e \<Rightarrow> Inl e
      | Inr (y, st') \<Rightarrow>
          (case array_map f st' xs of Inl e \<Rightarrow> Inl e | Inr (ys, st'') \<Rightarrow> Inr (y # ys, st'')))"

fun elements :: "jsval \<Rightarrow> jsval list" where
  "elements (JArr xs) = xs"
| "elements v = []"

text \<open>
  \<open>router.post('/batch')\<close>, with the callback of \<open>map\<close> as a parameter. The regular
  expression is created once for the request; \<open>res.json\<close> serialises the entries echoed in
  the results.
\<close>

definition batch_with ::
  "(RegExp \<Rightarrow> jsval \<Rightarrow> js_exception + ValidationResult \<times> RegExp) \<Rightarrow> stack_room \<Rightarrow>
     (string \<times> jsval) list \<Rightarrow> js_exception + http_response" where
  "batch_with entry stk req_body =
     (let emails = get_field req_body ''emails'' in
      if \<not> truthy emails \<or> \<not> isArray emails then
        Inr \<lparr>status = 400, json = ErrorBody ''VALIDATION_ERROR'' ''Emails array is required''\<rparr>
      else
        (case array_map entry emailRegex (elements emails) of
           Inl e \<Rightarrow> Inl e
         | Inr (rs, re) \<Rightarrow>
             if list_ex (\<lambda>r. stringify_room stk < nesting (email r)) rs then Inl RangeError
             else
               Inr \<lparr>status = 200,
                    json = BatchBody
                      \<lparr>results = rs, total = length (elements emails),
                       valid_count = length (filter valid rs),
                       processing_time_ms = 50\<rparr>\<rparr>))"

definition batch_handler ::
  "stack_room \<Rightarrow> (string \<times> jsval) list \<Rightarrow> js_exception + http_response" where
  "batch_handler stk = batch_with (batch_entry stk) stk"

text \<open>
  The variant the specification allows: the test is evaluated once for each entry and the
  boolean is used for all three fields.
\<close>

definition batch_entry_once ::
  "stack_room \<Rightarrow> RegExp \<Rightarrow> jsval \<Rightarrow> js_exception + ValidationResult \<times> RegExp" where
  "batch_entry_once stk re em =
     (case regex_test stk re em of
        Inl e \<Rightarrow> Inl e
      | Inr (v, re1) \<Rightarrow>
          Inr (\<lparr>email = em, valid = v, quality_score = (if v then 0.8 else 0),
                checks_syntax_valid = v\<rparr>, re1))"

definition batch_handler_once ::
  "stack_room \<Rightarrow> (string \<times> jsval) list \<Rightarrow> js_exception + http_response" where
  "batch_handler_once stk = batch_with (batch_entry_once stk) stk"

section \<open>Disposable domains\<close>

definition disposableDomains :: "string list" where
  "disposableDomains =
     [''tempmail.com'', ''guerrillamail.com'', ''10minutemail.com'', ''throwaway.email'']"

text \<open>\<open>s.split(sep)\<close> for a separator of one character: never empty, one more piece than
  separators.\<close>

fun js_split :: "char \<Rightarrow> string \<Rightarrow> string list" where
  "js_split sep [] = ['''']"
| "js_split sep (c # cs) =
     (if c = sep then [] # js_split sep cs
      else (case js_split sep cs of [] \<Rightarrow> [c # []] | p # ps \<Rightarrow> (c # p) # ps))"

text \<open>\<open>xs[i]\<close>: \<open>undefined\<close> past the end.\<close>

definition index :: "'a list \<Rightarrow> nat \<Rightarrow> 'a option" where
  "index xs i = (if i < length xs then Some (xs ! i) else None)"

text \<open>\<open>toLowerCase\<close> on code units below 256: A to Z, and the capitals from U+00C0 to
  U+00DE but for the multiplication sign, move up by 32.\<close>

definition lower_char :: "char \<Rightarrow> char" where
  "lower_char c =
     (let n = (of_char c :: nat) in
      if (65 \<le> n \<and> n \<le> 90) \<or> (192 \<le> n \<and> n \<le> 222 \<and> n \<noteq> 215) then char_of (n + 32) else c)"

definition toLowerCase :: "string \<Rightarrow> string" where
  "toLowerCase s = map lower_char s"

text \<open>\<open>email.split('@')[1]?.toLowerCase()\<close> is \<open>undefined\<close> when there is no second piece,
  and \<open>includes(undefined)\<close> is false on a list of strings.\<close>

definition isDisposable :: "string \<Rightarrow> bool" where
  "isDisposable em =
     (let domain = map_option toLowerCase (index (js_split CHR ''@'' em) 1) in
      case domain of None \<Rightarrow> False | Some d \<Rightarrow> d \<in> set disposableDomains)"

section \<open>Error handler\<close>

text \<open>The properties that \<open>errorHandler\<close> reads from \<open>err\<close> and \<open>req\<close>; a property the error
  does not have reads as \<open>undefined\<close>.\<close>

record js_error =
  err_statusCode :: jsval
  err_status :: jsval
  err_name :: jsval
  err_message :: jsval
  err_stack :: jsval

record request =
  req_path :: string
  req_method :: string

record log_entry =
  log_text :: string
  log_error :: jsval
  log_stack :: jsval
  log_path :: string
  log_method :: string

text \<open>The spread \<open>...(c && {stack: err.stack})\<close> adds the key \<open>stack\<close> when \<open>c\<close> holds and
  nothing otherwise: \<open>res_stack\<close> is \<open>None\<close> when the body has no such key.\<close>

record error_response =
  res_status :: jsval
  res_error :: jsval
  res_message :: jsval
  res_stack :: "jsval option"

text \<open>\<open>NODE_ENV\<close> is \<open>process.env.NODE_ENV\<close>, \<open>None\<close> when the variable is not set. The result
  is the entry handed to \<open>logger.error\<close> and the response.\<close>

definition errorHandler ::
  "string option \<Rightarrow> js_error \<Rightarrow> request \<Rightarrow> log_entry \<times> error_response" where
  "errorHandler NODE_ENV err req =
     (let logged = \<lparr>log_text = ''Error occurred'', log_error = err_message err,
                     log_stack = err_stack err, log_path = req_path req,
                     log_method = req_method req\<rparr>;
          statusCode = js_or (js_or (err_statusCode err) (err_status err)) (JNum ''500'')
      in (logged,
          \<lparr>res_status = statusCode,
           res_error = js_or (err_name err) (JStr ''INTERNAL_SERVER_ERROR''),
           res_message = js_or (err_message err) (JStr ''An unexpected error occurred''),
           res_stack = (if NODE_ENV = Some ''development'' then Some (err_stack err) else None)\<rparr>))"

section \<open>The specification's words\<close>

text \<open>The part of a string before its first \<open>@\<close>, and the part after it.\<close>

definition local_part :: "string \<Rightarrow> string" where
  "local_part s = takeWhile (\<lambda>c. c \<noteq> CHR ''@'') s"

definition domain_part :: "string \<Rightarrow> string" where
  "domain_part s = drop 1 (dropWhile (\<lambda>c. c \<noteq> CHR ''@'') s)"

text \<open>The pattern as the specification words it: exactly one \<open>@\<close>, no whitespace, and a
  \<open>.\<close> somewhere after the \<open>@\<close>.\<close>

definition claimed_pattern :: "string \<Rightarrow> bool" where
  "claimed_pattern s =
     (count_list s CHR ''@'' = 1 \<and> \<not> list_ex is_space s \<and> CHR ''.'' \<in> set (domain_part s))"

text \<open>The same with what the three \<open>+\<close> add: something before the \<open>@\<close>, and a \<open>.\<close> after it
  that is neither the first nor the last character of the domain.\<close>

definition accepted_pattern :: "string \<Rightarrow> bool" where
  "accepted_pattern s =
     (count_list s CHR ''@'' = 1 \<and> \<not> list_ex is_space s \<and> local_part s \<noteq> [] \<and>
      CHR ''.'' \<in> set (butlast (tl (domain_part s))))"

text \<open>A character that \<open>[^\s@]\<close> accepts.\<close>

definition plain :: "char \<Rightarrow> bool" where
  "plain c = (\<not> is_space c \<and> c \<noteq> CHR ''@'')"

text \<open>The substring after the first \<open>@\<close> and the substring after the last one, when the
  string has an \<open>@\<close>; and membership of the lowercased substring in the list.\<close>

definition after_first_at :: "string \<Rightarrow> string option" where
  "after_first_at s = (if CHR ''@'' \<in> set s then Some (domain_part s) else None)"

definition after_last_at :: "string \<Rightarrow> string option" where
  "after_last_at s =
     (if CHR ''@'' \<in> set s then Some (rev (takeWhile (\<lambda>c. c \<noteq> CHR ''@'') (rev s))) else None)"

definition listed :: "string option \<Rightarrow> bool" where
  "listed d = (case d of None \<Rightarrow> False | Some x \<Rightarrow> toLowerCase x \<in> set disposableDomains)"

text \<open>What \<open>split('@')[1]\<close> is: the substring between the first \<open>@\<close> and the next.\<close>

definition second_piece :: "string \<Rightarrow> string option" where
  "second_piece s =
     (if CHR ''@'' \<in> set s then Some (takeWhile (\<lambda>c. c \<noteq> CHR ''@'') (domain_part s)) else None)"

text \<open>An entry that \<open>emailRegex.test\<close> can convert to a string with the room there is.\<close>

definition convertible :: "stack_room \<Rightarrow> jsval \<Rightarrow> bool" where
  "convertible stk x = (case ToString (join_room stk) x of Inl e \<Rightarrow> False | Inr s \<Rightarrow> True)"

text \<open>A value that is neither an array nor an object.\<close>

fun primitive :: "jsval \<Rightarrow> bool" where
  "primitive (JArr xs) = False"
| "primitive (JObj kvs) = False"
| "primitive v = True"

text \<open>The response to a request without a usable \<open>email\<close>, and to one without an array.\<close>

definition email_required :: "http_response" where
  "email_required = \<lparr>status = 400, json = ErrorBody ''VALIDATION_ERROR'' ''Email is required''\<rparr>"

definition emails_required :: "http_response" where
  "emails_required =
     \<lparr>status = 400, json = ErrorBody ''VALIDATION_ERROR'' ''Emails array is required''\<rparr>"

section \<open>The pattern, character by character\<close>

lemma atom_plain: "atom_matches (NoneOf [WhiteSpace, Ch CHR ''@'']) c = plain c"
  by (simp add: plain_def)

lemma match_Once:
  "match_pieces (Once a # ps) s \<longleftrightarrow> (\<exists>c v. s = c # v \<and> atom_matches a c \<and> match_pieces ps v)"
  by (cases s) simp_all

lemma match_OneOrMore:
  "match_pieces (OneOrMore a # ps) s \<longleftrightarrow>
     (\<exists>u v. s = u @ v \<and> u \<noteq> [] \<and> list_all (atom_matches a) u \<and> match_pieces ps v)"
proof (induction s)
  case Nil
  then show ?case by simp
next
  case (Cons c cs)
  show ?case
  proof
    assume "match_pieces (OneOrMore a # ps) (c # cs)"
    then have c: "atom_matches a c"
      and rest: "match_pieces (OneOrMore a # ps) cs \<or> match_pieces ps cs"
      by simp_all
    from rest show "\<exists>u v. c # cs = u @ v \<and> u \<noteq> [] \<and> list_all (atom_matches a) u \<and> match_pieces ps v"
    proof
      assume "match_pieces (OneOrMore a # ps) cs"
      with Cons.IH obtain u v where "cs = u @ v" "list_all (atom_matches a) u" "match_pieces ps v"
        by blast
      with c have "c # cs = (c # u) @ v \<and> c # u \<noteq> [] \<and> list_all (atom_matches a) (c # u) \<and> match_pieces ps v"
        by simp
      then show ?thesis by blast
    next
      assume "match_pieces ps cs"
      with c have "c # cs = [c] @ cs \<and> [c] \<noteq> [] \<and> list_all (atom_matches a) [c] \<and> match_pieces ps cs"
        by simp
      then show ?thesis by blast
    qed
  next
    assume "\<exists>u v. c # cs = u @ v \<and> u \<noteq> [] \<and> list_all (atom_matches a) u \<and> match_pieces ps v"
    then obtain u v where uv: "c # cs = u @ v" "u \<noteq> []" "list_all (atom_matches a) u" "match_pieces ps v"
      by blast
    then obtain u' where u: "u = c # u'" "cs = u' @ v"
      by (cases u) auto
    show "match_pieces (OneOrMore a # ps) (c # cs)"
    proof (cases "u' = []")
      case True
      with u uv show ?thesis by simp
    next
      case False
      with u uv have "match_pieces (OneOrMore a # ps) cs"
        using Cons.IH by auto
      with u uv show ?thesis by simp
    qed
  qed
qed

lemma match_last_OneOrMore:
  "match_pieces [OneOrMore a] s \<longleftrightarrow> s \<noteq> [] \<and> list_all (atom_matches a) s"
  by (induction s) auto

lemma emailPattern_shape:
  "match_pieces emailPattern s \<longleftrightarrow>
     (\<exists>l d1 d2. s = l @ CHR ''@'' # d1 @ CHR ''.'' # d2 \<and> l \<noteq> [] \<and> d1 \<noteq> [] \<and> d2 \<noteq> [] \<and>
        list_all plain l \<and> list_all plain d1 \<and> list_all plain d2)"
  (is "?M \<longleftrightarrow> ?S")
proof
  assume ?M
  then obtain l v where l: "s = l @ v" "l \<noteq> []" "list_all plain l"
    and v: "match_pieces [Once (Lit CHR ''@''), OneOrMore (NoneOf [WhiteSpace, Ch CHR ''@'']),
              Once (Lit CHR ''.''), OneOrMore (NoneOf [WhiteSpace, Ch CHR ''@''])] v"
    unfolding emailPattern_def match_OneOrMore atom_plain by blast
  from v obtain w where w: "v = CHR ''@'' # w"
    and w': "match_pieces [OneOrMore (NoneOf [WhiteSpace, Ch CHR ''@'']),
              Once (Lit CHR ''.''), OneOrMore (NoneOf [WhiteSpace, Ch CHR ''@''])] w"
    unfolding match_Once by auto
  from w' obtain d1 x where d1: "w = d1 @ x" "d1 \<noteq> []" "list_all plain d1"
    and x: "match_pieces [Once (Lit CHR ''.''), OneOrMore (NoneOf [WhiteSpace, Ch CHR ''@''])] x"
    unfolding match_OneOrMore atom_plain by blast
  from x obtain d2 where d2: "x = CHR ''.'' # d2"
    and d2': "match_pieces [OneOrMore (NoneOf [WhiteSpace, Ch CHR ''@''])] d2"
    unfolding match_Once by auto
  from d2' have "d2 \<noteq> []" "list_all plain d2"
    unfolding match_last_OneOrMore atom_plain by simp_all
  with l w d1 d2 show ?S by auto
next
  assume ?S
  then obtain l d1 d2 where s: "s = l @ CHR ''@'' # d1 @ CHR ''.'' # d2"
    and ne: "l \<noteq> []" "d1 \<noteq> []" "d2 \<noteq> []"
    and pl: "list_all plain l" "list_all plain d1" "list_all plain d2"
    by blast
  have 1: "match_pieces [OneOrMore (NoneOf [WhiteSpace, Ch CHR ''@''])] d2"
    unfolding match_last_OneOrMore atom_plain using ne pl by simp
  then have 2: "match_pieces [Once (Lit CHR ''.''), OneOrMore (NoneOf [WhiteSpace, Ch CHR ''@''])]
                  (CHR ''.'' # d2)"
    by simp
  have 3: "match_pieces [OneOrMore (NoneOf [WhiteSpace, Ch CHR ''@'']),
              Once (Lit CHR ''.''), OneOrMore (NoneOf [WhiteSpace, Ch CHR ''@''])]
             (d1 @ CHR ''.'' # d2)"
    unfolding match_OneOrMore [of _ "[Once (Lit CHR ''.''), OneOrMore (NoneOf [WhiteSpace, Ch CHR ''@''])]"]
      atom_plain
    using 2 ne pl by blast
  then have 4: "match_pieces [Once (Lit CHR ''@''), OneOrMore (NoneOf [WhiteSpace, Ch CHR ''@'']),
              Once (Lit CHR ''.''), OneOrMore (NoneOf [WhiteSpace, Ch CHR ''@''])]
             (CHR ''@'' # d1 @ CHR ''.'' # d2)"
    by simp
  show ?M
    unfolding emailPattern_def s
      match_OneOrMore [of _ "[Once (Lit CHR ''@''), OneOrMore (NoneOf [WhiteSpace, Ch CHR ''@'']),
              Once (Lit CHR ''.''), OneOrMore (NoneOf [WhiteSpace, Ch CHR ''@''])]"]
      atom_plain
    using 4 ne pl by blast
qed

lemma plain_all: "list_all plain s \<longleftrightarrow> \<not> list_ex is_space s \<and> CHR ''@'' \<notin> set s"
  by (induction s) (auto simp: plain_def)

lemma count_at_zero: "count_list s c = 0 \<longleftrightarrow> c \<notin> set s"
  by (induction s) auto

lemma interior_dot:
  "CHR ''.'' \<in> set (butlast (tl d)) \<longleftrightarrow> (\<exists>d1 d2. d = d1 @ CHR ''.'' # d2 \<and> d1 \<noteq> [] \<and> d2 \<noteq> [])"
proof
  assume a: "CHR ''.'' \<in> set (butlast (tl d))"
  then obtain x d' where d: "d = x # d'" by (cases d) auto
  with a have "CHR ''.'' \<in> set (butlast d')" by simp
  then obtain u v where uv: "butlast d' = u @ CHR ''.'' # v" by (auto dest: split_list)
  then have "d' \<noteq> []" by auto
  then have "d' = butlast d' @ [last d']" by simp
  with uv d have "d = (x # u) @ CHR ''.'' # (v @ [last d'])" by simp
  then show "\<exists>d1 d2. d = d1 @ CHR ''.'' # d2 \<and> d1 \<noteq> [] \<and> d2 \<noteq> []" by blast
next
  assume "\<exists>d1 d2. d = d1 @ CHR ''.'' # d2 \<and> d1 \<noteq> [] \<and> d2 \<noteq> []"
  then obtain d1 d2 where d: "d = d1 @ CHR ''.'' # d2" "d1 \<noteq> []" "d2 \<noteq> []" by blast
  then obtain x u where "d1 = x # u" by (cases d1) auto
  with d show "CHR ''.'' \<in> set (butlast (tl d))" by (simp add: butlast_append)
qed

lemma takeWhile_upto: "c \<notin> set l \<Longrightarrow> takeWhile (\<lambda>x. x \<noteq> c) (l @ c # d) = l"
  by (induction l) auto

lemma dropWhile_upto: "c \<notin> set l \<Longrightarrow> dropWhile (\<lambda>x. x \<noteq> c) (l @ c # d) = c # d"
  by (induction l) auto

lemma emailPattern_accepted: "match_pieces emailPattern s = accepted_pattern s"
proof
  assume "match_pieces emailPattern s"
  then obtain l d1 d2 where s: "s = l @ CHR ''@'' # d1 @ CHR ''.'' # d2"
    and ne: "l \<noteq> []" "d1 \<noteq> []" "d2 \<noteq> []"
    and pl: "list_all plain l" "list_all plain d1" "list_all plain d2"
    unfolding emailPattern_shape by blast
  from pl have no: "CHR ''@'' \<notin> set l" "CHR ''@'' \<notin> set d1" "CHR ''@'' \<notin> set d2"
    and sp: "\<not> list_ex is_space l" "\<not> list_ex is_space d1" "\<not> list_ex is_space d2"
    by (simp_all add: plain_all)
  from no have lp: "local_part s = l" and dp: "domain_part s = d1 @ CHR ''.'' # d2"
    unfolding local_part_def domain_part_def s
    by (simp_all add: takeWhile_upto dropWhile_upto)
  have cnt: "count_list s CHR ''@'' = 1"
    unfolding s using no by (simp add: count_at_zero)
  have spc: "\<not> list_ex is_space s"
    unfolding s using sp by (simp add: is_space_def)
  have "CHR ''.'' \<in> set (butlast (tl (domain_part s)))"
    unfolding dp interior_dot using ne by blast
  with cnt spc lp ne show "accepted_pattern s"
    by (simp add: accepted_pattern_def)
next
  assume a: "accepted_pattern s"
  then have cnt: "count_list s CHR ''@'' = 1" and spc: "\<not> list_ex is_space s"
    and lne: "local_part s \<noteq> []" and dot: "CHR ''.'' \<in> set (butlast (tl (domain_part s)))"
    by (simp_all add: accepted_pattern_def)
  from cnt have "CHR ''@'' \<in> set s"
    using count_at_zero [of s "CHR ''@''"] by auto
  then obtain l d where s: "s = l @ CHR ''@'' # d" and nol: "CHR ''@'' \<notin> set l"
    by (auto dest: split_list_first)
  from cnt nol have nod: "CHR ''@'' \<notin> set d"
    unfolding s by (simp add: count_at_zero)
  from nol have lp: "local_part s = l" and dp: "domain_part s = d"
    unfolding local_part_def domain_part_def s
    by (simp_all add: takeWhile_upto dropWhile_upto)
  from dot obtain d1 d2 where d: "d = d1 @ CHR ''.'' # d2" "d1 \<noteq> []" "d2 \<noteq> []"
    unfolding dp interior_dot by blast
  from spc nol nod have "list_all plain l" "list_all plain d1" "list_all plain d2"
    unfolding s d by (simp_all add: plain_all)
  with lne lp d s show "match_pieces emailPattern s"
    unfolding emailPattern_shape by blast
qed

section \<open>The single validation endpoint\<close>

lemma emailRegex_flagless: "CHR ''g'' \<notin> set (flags emailRegex)" "CHR ''y'' \<notin> set (flags emailRegex)"
  by (simp_all add: emailRegex_def)

lemma regex_test_flagless:
  assumes "CHR ''g'' \<notin> set (flags re)" and "CHR ''y'' \<notin> set (flags re)"
  shows "regex_test stk re x =
           (case ToString (join_room stk) x of
              Inl e \<Rightarrow> Inl e
            | Inr s \<Rightarrow> Inr (match_pieces (source re) s, re))"
  using assms by (cases "ToString (join_room stk) x") (simp_all add: regex_test_def)

lemma regex_test_emailRegex:
  "regex_test stk emailRegex x =
     (case ToString (join_room stk) x of
        Inl e \<Rightarrow> Inl e
      | Inr s \<Rightarrow> Inr (accepted_pattern s, emailRegex))"
proof -
  have "regex_test stk emailRegex x =
          (case ToString (join_room stk) x of
             Inl e \<Rightarrow> Inl e
           | Inr s \<Rightarrow> Inr (match_pieces (source emailRegex) s, emailRegex))"
    by (rule regex_test_flagless [OF emailRegex_flagless])
  moreover have "source emailRegex = emailPattern"
    by (simp add: emailRegex_def)
  ultimately show ?thesis
    by (cases "ToString (join_room stk) x") (simp_all add: emailPattern_accepted)
qed

lemma validate_falsy:
  "\<not> truthy (get_field req_body ''email'') \<Longrightarrow>
   validate_handler stk now req_body = Inr email_required"
  by (simp add: validate_handler_def email_required_def)

lemma validate_string:
  "s \<noteq> [] \<Longrightarrow> get_field req_body ''email'' = JStr s \<Longrightarrow>
   validate_handler stk now req_body =
     Inr \<lparr>status = 200,
          json = ValidateBody
            \<lparr>email = JStr s, valid = accepted_pattern s,
             quality_score = (if accepted_pattern s then 0.8 else 0),
             checks_syntax_valid = accepted_pattern s,
             metadata_processing_time_ms = 10, metadata_timestamp = now,
             response_note = ''Simplified validation - full features coming soon!''\<rparr>\<rparr>"
  by (simp add: validate_handler_def regex_test_emailRegex)

text \<open>
  Claim C1, amended. For every non-empty string sent as \<open>email\<close>, \<open>/validate\<close> answers 200
  with \<open>valid == true\<close> exactly when the string has one \<open>@\<close>, no whitespace, a non-empty
  part before the \<open>@\<close>, and a \<open>.\<close> after it that is neither the first nor the last
  character of the domain; every other non-empty string gets \<open>valid == false\<close>.
\<close>

theorem validate_valid_iff_accepted_pattern:
  assumes "get_field req_body ''email'' = JStr s" and "s \<noteq> []"
  shows "\<exists>r. validate_handler stk now req_body = Inr \<lparr>status = 200, json = ValidateBody r\<rparr> \<and>
             email r = JStr s \<and> valid r = accepted_pattern s"
  using assms by (simp add: validate_string)

theorem validate_valid_iff_accepted_pattern_witness:
  "get_field [(''email'', JStr ''a@b.com'')] ''email'' = JStr ''a@b.com'' \<and> ''a@b.com'' \<noteq> [] \<and>
   accepted_pattern ''a@b.com'' \<and>
   (\<exists>r. validate_handler \<lparr>join_room = 1000, stringify_room = 1000\<rparr> ''2024-01-01T00:00:00.000Z'' [(''email'', JStr ''a@b.com'')] =
           Inr \<lparr>status = 200, json = ValidateBody r\<rparr> \<and>
         email r = JStr ''a@b.com'' \<and> valid r = accepted_pattern ''a@b.com'')"
proof -
  have f: "get_field [(''email'', JStr ''a@b.com'')] ''email'' = JStr ''a@b.com''"
    by (simp add: get_field_def)
  have n: "''a@b.com'' \<noteq> []" by simp
  have a: "accepted_pattern ''a@b.com''"
    by (simp add: accepted_pattern_def local_part_def domain_part_def is_space_def)
  from validate_valid_iff_accepted_pattern [OF f n, where stk = "\<lparr>join_room = 1000, stringify_room = 1000\<rparr>" and now = "''2024-01-01T00:00:00.000Z''"] f n a
  show ?thesis by blast
qed

text \<open>
  Claim C1 as it is worded fails twice. \<open>@b.com\<close> has one \<open>@\<close>, no whitespace and a \<open>.\<close>
  after the \<open>@\<close>, and is reported invalid. The empty string fails the pattern and gets no
  \<open>valid == false\<close>: it is answered with 400.
\<close>

theorem validate_claimed_pattern_counterexample:
  "claimed_pattern ''@b.com'' \<and>
   validate_handler \<lparr>join_room = 1000, stringify_room = 1000\<rparr> ''2024-01-01T00:00:00.000Z'' [(''email'', JStr ''@b.com'')] =
     Inr \<lparr>status = 200,
          json = ValidateBody
            \<lparr>email = JStr ''@b.com'', valid = False, quality_score = 0,
             checks_syntax_valid = False,
             metadata_processing_time_ms = 10,
             metadata_timestamp = ''2024-01-01T00:00:00.000Z'',
             response_note = ''Simplified validation - full features coming soon!''\<rparr>\<rparr> \<and>
   \<not> claimed_pattern [] \<and>
   validate_handler \<lparr>join_room = 1000, stringify_room = 1000\<rparr> ''2024-01-01T00:00:00.000Z'' [(''email'', JStr [])] =
     Inr \<lparr>status = 400, json = ErrorBody ''VALIDATION_ERROR'' ''Email is required''\<rparr>"
proof -
  have 1: "claimed_pattern ''@b.com''"
    by (simp add: claimed_pattern_def domain_part_def is_space_def)
  have 2: "\<not> accepted_pattern ''@b.com''"
    by (simp add: accepted_pattern_def local_part_def)
  have f: "get_field [(''email'', JStr ''@b.com'')] ''email'' = JStr ''@b.com''"
    by (simp add: get_field_def)
  have 3: "\<not> claimed_pattern []"
    by (simp add: claimed_pattern_def)
  have 4: "validate_handler \<lparr>join_room = 1000, stringify_room = 1000\<rparr> ''2024-01-01T00:00:00.000Z'' [(''email'', JStr [])] =
     Inr \<lparr>status = 400, json = ErrorBody ''VALIDATION_ERROR'' ''Email is required''\<rparr>"
    by (simp add: validate_handler_def get_field_def)
  from 1 2 3 4 validate_string [OF _ f, where stk = "\<lparr>join_room = 1000, stringify_room = 1000\<rparr>" and now = "''2024-01-01T00:00:00.000Z''"]
  show ?thesis by simp
qed

text \<open>
  Claim C4. A body with no \<open>email\<close> field is answered with status 400 and the body
  \<open>{error: "VALIDATION_ERROR", message: "Email is required"}\<close>; the answer is not a
  ValidationResult.
\<close>

theorem validate_missing_email:
  assumes "map_of req_body ''email'' = None"
  shows "validate_handler stk now req_body =
           Inr \<lparr>status = 400, json = ErrorBody ''VALIDATION_ERROR'' ''Email is required''\<rparr> \<and>
         (\<forall>st r. validate_handler stk now req_body \<noteq> Inr \<lparr>status = st, json = ValidateBody r\<rparr>)"
  using assms by (simp add: validate_handler_def get_field_def)

theorem validate_missing_email_witness:
  "map_of ([] :: (string \<times> jsval) list) ''email'' = None \<and>
   validate_handler \<lparr>join_room = 1000, stringify_room = 1000\<rparr> ''2024-01-01T00:00:00.000Z'' [] =
     Inr \<lparr>status = 400, json = ErrorBody ''VALIDATION_ERROR'' ''Email is required''\<rparr>"
  using validate_missing_email [where req_body = "[]" and stk = "\<lparr>join_room = 1000, stringify_room = 1000\<rparr>" and now = "''2024-01-01T00:00:00.000Z''"] by simp

text \<open>
  Claim C9. An \<open>email\<close> field that holds the empty string, 0, \<open>false\<close> or \<open>null\<close> is answered
  as a missing one is: status 400 with \<open>{error: "VALIDATION_ERROR", message: "Email is
  required"}\<close>, and no ValidationResult.
\<close>

theorem validate_falsy_email:
  assumes "get_field req_body ''email'' \<in> {JStr [], JNum ''0'', JBool False, JNull}"
  shows "validate_handler stk now req_body =
           Inr \<lparr>status = 400, json = ErrorBody ''VALIDATION_ERROR'' ''Email is required''\<rparr> \<and>
         validate_handler stk now req_body = validate_handler stk now [] \<and>
         (\<forall>st r. validate_handler stk now req_body \<noteq> Inr \<lparr>status = st, json = ValidateBody r\<rparr>)"
proof -
  from assms have "\<not> truthy (get_field req_body ''email'')" by auto
  then have "validate_handler stk now req_body = Inr email_required"
    by (rule validate_falsy)
  moreover have "validate_handler stk now [] = Inr email_required"
    by (simp add: validate_falsy get_field_def)
  ultimately show ?thesis by (simp add: email_required_def)
qed

theorem validate_falsy_email_witness:
  "validate_handler \<lparr>join_room = 1000, stringify_room = 1000\<rparr> ''2024-01-01T00:00:00.000Z'' [(''email'', JStr [])] =
     Inr \<lparr>status = 400, json = ErrorBody ''VALIDATION_ERROR'' ''Email is required''\<rparr> \<and>
   validate_handler \<lparr>join_room = 1000, stringify_room = 1000\<rparr> ''2024-01-01T00:00:00.000Z'' [(''email'', JNum ''0'')] =
     Inr \<lparr>status = 400, json = ErrorBody ''VALIDATION_ERROR'' ''Email is required''\<rparr> \<and>
   validate_handler \<lparr>join_room = 1000, stringify_room = 1000\<rparr> ''2024-01-01T00:00:00.000Z'' [(''email'', JBool False)] =
     Inr \<lparr>status = 400, json = ErrorBody ''VALIDATION_ERROR'' ''Email is required''\<rparr> \<and>
   validate_handler \<lparr>join_room = 1000, stringify_room = 1000\<rparr> ''2024-01-01T00:00:00.000Z'' [(''email'', JNull)] =
     Inr \<lparr>status = 400, json = ErrorBody ''VALIDATION_ERROR'' ''Email is required''\<rparr>"
proof -
  have "get_field [(''email'', v)] ''email'' = v" for v
    by (simp add: get_field_def)
  then show ?thesis
    using validate_falsy_email [where req_body = "[(''email'', JStr [])]" and stk = "\<lparr>join_room = 1000, stringify_room = 1000\<rparr>" and now = "''2024-01-01T00:00:00.000Z''"]
      validate_falsy_email [where req_body = "[(''email'', JNum ''0'')]" and stk = "\<lparr>join_room = 1000, stringify_room = 1000\<rparr>" and now = "''2024-01-01T00:00:00.000Z''"]
      validate_falsy_email [where req_body = "[(''email'', JBool False)]" and stk = "\<lparr>join_room = 1000, stringify_room = 1000\<rparr>" and now = "''2024-01-01T00:00:00.000Z''"]
      validate_falsy_email [where req_body = "[(''email'', JNull)]" and stk = "\<lparr>join_room = 1000, stringify_room = 1000\<rparr>" and now = "''2024-01-01T00:00:00.000Z''"]
    by simp
qed

section \<open>The batch endpoint\<close>

text \<open>The three tests of an entry on the regular expression without flags.\<close>

lemma batch_entry_emailRegex:
  "batch_entry stk emailRegex x =
     (case ToString (join_room stk) x of
        Inl e \<Rightarrow> Inl e
      | Inr s \<Rightarrow>
          Inr (\<lparr>email = x, valid = accepted_pattern s,
                quality_score = (if accepted_pattern s then 0.8 else 0),
                checks_syntax_valid = accepted_pattern s\<rparr>, emailRegex))"
  by (cases "ToString (join_room stk) x") (simp_all add: batch_entry_def regex_test_emailRegex)

lemma batch_entry_once_emailRegex:
  "batch_entry_once stk emailRegex x = batch_entry stk emailRegex x"
  by (cases "ToString (join_room stk) x")
    (simp_all add: batch_entry_once_def batch_entry_emailRegex regex_test_emailRegex)

lemma batch_entry_keeps_emailRegex:
  "batch_entry stk emailRegex x = Inr (r, re) \<Longrightarrow> re = emailRegex"
  by (cases "ToString (join_room stk) x") (simp_all add: batch_entry_emailRegex)

lemma batch_entry_once_keeps_emailRegex:
  "batch_entry_once stk emailRegex x = Inr (r, re) \<Longrightarrow> re = emailRegex"
  by (simp add: batch_entry_once_emailRegex batch_entry_keeps_emailRegex)

lemma batch_entry_Inr:
  assumes "batch_entry stk emailRegex x = Inr (r, re)"
  shows "\<exists>v. regex_test stk emailRegex x = Inr (v, emailRegex) \<and>
             r = \<lparr>email = x, valid = v, quality_score = (if v then 0.8 else 0),
                  checks_syntax_valid = v\<rparr>"
proof (cases "ToString (join_room stk) x")
  case (Inl e)
  with assms show ?thesis by (simp add: batch_entry_emailRegex)
next
  case (Inr s)
  with assms have "r = \<lparr>email = x, valid = accepted_pattern s,
                         quality_score = (if accepted_pattern s then 0.8 else 0),
                         checks_syntax_valid = accepted_pattern s\<rparr>"
    by (simp add: batch_entry_emailRegex)
  moreover from Inr have "regex_test stk emailRegex x = Inr (accepted_pattern s, emailRegex)"
    by (simp add: regex_test_emailRegex)
  ultimately show ?thesis by blast
qed

text \<open>
  With the flag \<open>g\<close> the three tests of one entry would not agree: the second starts at the
  \<open>lastIndex\<close> that the first has set, and fails.
\<close>

lemma batch_entry_global_flag:
  "batch_entry stk (emailRegex\<lparr>flags := ''g''\<rparr>) (JStr ''a@b.com'') =
     Inr (\<lparr>email = JStr ''a@b.com'', valid = True, quality_score = 0,
           checks_syntax_valid = True\<rparr>,
          emailRegex\<lparr>flags := ''g'', lastIndex := 7\<rparr>)"
  "batch_entry_once stk (emailRegex\<lparr>flags := ''g''\<rparr>) (JStr ''a@b.com'') =
     Inr (\<lparr>email = JStr ''a@b.com'', valid = True, quality_score = 0.8,
           checks_syntax_valid = True\<rparr>,
          emailRegex\<lparr>flags := ''g'', lastIndex := 7\<rparr>)"
proof -
  have "accepted_pattern ''a@b.com''"
    by (simp add: accepted_pattern_def local_part_def domain_part_def is_space_def)
  then have m: "match_pieces emailPattern ''a@b.com''"
    by (simp add: emailPattern_accepted)
  from m show "batch_entry stk (emailRegex\<lparr>flags := ''g''\<rparr>) (JStr ''a@b.com'') =
     Inr (\<lparr>email = JStr ''a@b.com'', valid = True, quality_score = 0,
           checks_syntax_valid = True\<rparr>,
          emailRegex\<lparr>flags := ''g'', lastIndex := 7\<rparr>)"
    by (simp add: batch_entry_def regex_test_def emailRegex_def)
  from m show "batch_entry_once stk (emailRegex\<lparr>flags := ''g''\<rparr>) (JStr ''a@b.com'') =
     Inr (\<lparr>email = JStr ''a@b.com'', valid = True, quality_score = 0.8,
           checks_syntax_valid = True\<rparr>,
          emailRegex\<lparr>flags := ''g'', lastIndex := 7\<rparr>)"
    by (simp add: batch_entry_once_def regex_test_def emailRegex_def)
qed

text \<open>\<open>map\<close> with a callback that leaves the shared object as it found it.\<close>

lemma array_map_Inr:
  assumes keeps: "\<And>x y st'. f st x = Inr (y, st') \<Longrightarrow> st' = st"
    and "array_map f st xs = Inr (ys, st')"
  shows "st' = st \<and> list_all2 (\<lambda>x y. f st x = Inr (y, st)) xs ys"
  using assms(2)
proof (induction xs arbitrary: ys)
  case Nil
  then show ?case by simp
next
  case (Cons x xs)
  from Cons.prems obtain y st1 where y: "f st x = Inr (y, st1)"
    by (cases "f st x") auto
  with keeps have st1: "st1 = st" by blast
  from Cons.prems y st1 obtain zs st2 where zs: "array_map f st xs = Inr (zs, st2)"
    by (cases "array_map f st xs") auto
  with y st1 Cons.prems have "ys = y # zs" and "st' = st2" by simp_all
  with y st1 zs Cons.IH [of zs] show ?case by simp
qed



lemma array_map_same:
  assumes same: "\<And>x. f st x = g st x"
    and keeps: "\<And>x y st'. f st x = Inr (y, st') \<Longrightarrow> st' = st"
  shows "array_map f st xs = array_map g st xs"
proof (induction xs)
  case Nil
  then show ?case by simp
next
  case (Cons x xs)
  show ?case
  proof (cases "f st x")
    case (Inl e)
    moreover from Inl same [of x] have "g st x = Inl e" by simp
    ultimately show ?thesis by simp
  next
    case (Inr p)
    obtain y st1 where p: "p = (y, st1)" by (cases p)
    with Inr keeps have st1: "st1 = st" by blast
    from Inr same [of x] have "g st x = Inr p" by simp
    with Inr p st1 Cons.IH show ?thesis by simp
  qed
qed

lemma batch_not_array:
  "\<not> isArray (get_field req_body ''emails'') \<Longrightarrow>
   batch_with entry stk req_body = Inr emails_required"
  by (simp add: batch_with_def emails_required_def)

lemma batch_array:
  "get_field req_body ''emails'' = JArr es \<Longrightarrow>
   batch_with entry stk req_body =
     (case array_map entry emailRegex es of
        Inl e \<Rightarrow> Inl e
      | Inr (rs, re) \<Rightarrow>
          if list_ex (\<lambda>r. stringify_room stk < nesting (email r)) rs then Inl RangeError
          else
            Inr \<lparr>status = 200,
                 json = BatchBody \<lparr>results = rs, total = length es,
                                   valid_count = length (filter valid rs),
                                   processing_time_ms = 50\<rparr>\<rparr>)"
  by (cases "array_map entry emailRegex es") (auto simp: batch_with_def)

text \<open>What the handler has computed when it answers an array.\<close>

lemma batch_answer:
  assumes es: "get_field req_body ''emails'' = JArr es"
    and resp: "batch_handler stk req_body = Inr resp"
  shows "\<exists>rs. list_all2 (\<lambda>x y. batch_entry stk emailRegex x = Inr (y, emailRegex)) es rs \<and>
              \<not> list_ex (\<lambda>r. stringify_room stk < nesting (email r)) rs \<and>
              resp = \<lparr>status = 200,
                      json = BatchBody \<lparr>results = rs, total = length es,
                                        valid_count = length (filter valid rs),
                                        processing_time_ms = 50\<rparr>\<rparr>"
proof (cases "array_map (batch_entry stk) emailRegex es")
  case (Inl e)
  with resp show ?thesis
    by (simp add: batch_handler_def batch_array [OF es])
next
  case (Inr p)
  obtain rs re where p: "p = (rs, re)" by (cases p)
  from Inr p have "re = emailRegex \<and>
      list_all2 (\<lambda>x y. batch_entry stk emailRegex x = Inr (y, emailRegex)) es rs"
    by (intro array_map_Inr) (auto dest: batch_entry_keeps_emailRegex)
  moreover from resp Inr p
  have "\<not> list_ex (\<lambda>r. stringify_room stk < nesting (email r)) rs \<and>
        resp = \<lparr>status = 200,
                json = BatchBody \<lparr>results = rs, total = length es,
                                  valid_count = length (filter valid rs),
                                  processing_time_ms = 50\<rparr>\<rparr>"
    by (cases "list_ex (\<lambda>r. stringify_room stk < nesting (email r)) rs")
      (simp_all add: batch_handler_def batch_array [OF es])
  ultimately show ?thesis by blast
qed

lemma validate_truthy:
  assumes "truthy x" and "regex_test stk emailRegex x = Inr (v, re)"
    and "get_field req_body ''email'' = x" and "nesting x \<le> stringify_room stk + 2"
  shows "\<exists>r. validate_handler stk now req_body = Inr \<lparr>status = 200, json = ValidateBody r\<rparr> \<and>
             valid r = v"
  using assms by (simp add: validate_handler_def)

text \<open>
  Claim C8. Evaluating the test once for each entry and using the boolean for \<open>valid\<close>,
  \<open>quality_score\<close> and \<open>checks.syntax.valid\<close> gives, on every request body, the result of
  the source's handler, which evaluates it three times: the same response, or the same
  exception. The literal of \<open>emailRegex\<close> has neither \<open>g\<close> nor \<open>y\<close>, so a test leaves the
  object as it was and the three tests agree.
\<close>

theorem batch_handler_once_equiv:
  "batch_handler_once stk req_body = batch_handler stk req_body"
proof -
  have same: "array_map (batch_entry_once stk) emailRegex xs =
              array_map (batch_entry stk) emailRegex xs" for xs
    by (rule array_map_same)
      (simp_all add: batch_entry_once_emailRegex batch_entry_keeps_emailRegex)
  show ?thesis
    unfolding batch_handler_once_def batch_handler_def batch_with_def same
    by (rule refl)
qed

text \<open>
  Claim C10. The empty array is accepted: the answer is 200 with no results, \<open>total == 0\<close>
  and \<open>valid_count == 0\<close>, not a validation error.
\<close>

theorem batch_empty_array:
  assumes "get_field req_body ''emails'' = JArr []"
  shows "batch_handler stk req_body =
           Inr \<lparr>status = 200,
                json = BatchBody \<lparr>results = [], total = 0, valid_count = 0,
                                  processing_time_ms = 50\<rparr>\<rparr>"
  using assms by (simp add: batch_handler_def batch_array)

theorem batch_empty_array_witness:
  "get_field [(''emails'', JArr [])] ''emails'' = JArr [] \<and>
   batch_handler \<lparr>join_room = 1000, stringify_room = 1000\<rparr> [(''emails'', JArr [])] =
     Inr \<lparr>status = 200,
          json = BatchBody \<lparr>results = [], total = 0, valid_count = 0,
                            processing_time_ms = 50\<rparr>\<rparr>"
proof -
  have f: "get_field [(''emails'', JArr [])] ''emails'' = JArr []"
    by (simp add: get_field_def)
  from batch_empty_array [OF f] f show ?thesis by simp
qed

text \<open>
  Claim C3. When \<open>/batch\<close> answers a request whose \<open>emails\<close> is an array, the answer is 200
  with a BatchResult whose \<open>results\<close> has the length and the order of the input:
  \<open>results[i].email\<close> is the i-th entry and \<open>results[i].valid\<close> is the outcome of
  \<open>emailRegex.test\<close> on it, which is also the \<open>valid\<close> that \<open>/validate\<close> reports for that
  entry alone; \<open>total\<close> is the length of the input and \<open>valid_count\<close> the number of results
  with \<open>valid == true\<close>.
\<close>

theorem batch_results:
  assumes "get_field req_body ''emails'' = JArr es"
    and "batch_handler stk req_body = Inr resp"
  shows "\<exists>b. resp = \<lparr>status = 200, json = BatchBody b\<rparr> \<and>
             length (results b) = length es \<and>
             (\<forall>i<length es.
                email (results b ! i) = es ! i \<and>
                regex_test stk emailRegex (es ! i) = Inr (valid (results b ! i), emailRegex) \<and>
                (truthy (es ! i) \<longrightarrow>
                   (\<exists>r. validate_handler stk now [(''email'', es ! i)] =
                           Inr \<lparr>status = 200, json = ValidateBody r\<rparr> \<and>
                         valid r = valid (results b ! i)))) \<and>
             total b = length es \<and>
             valid_count b = length (filter valid (results b))"
proof -
  from batch_answer [OF assms] obtain rs
    where all2: "list_all2 (\<lambda>x y. batch_entry stk emailRegex x = Inr (y, emailRegex)) es rs"
      and room: "\<not> list_ex (\<lambda>r. stringify_room stk < nesting (email r)) rs"
      and resp: "resp = \<lparr>status = 200,
                   json = BatchBody \<lparr>results = rs, total = length es,
                                     valid_count = length (filter valid rs),
                                     processing_time_ms = 50\<rparr>\<rparr>"
    by blast
  from all2 have len: "length rs = length es"
    by (simp add: list_all2_lengthD)
  have each: "email (rs ! i) = es ! i \<and>
              regex_test stk emailRegex (es ! i) = Inr (valid (rs ! i), emailRegex) \<and>
              (truthy (es ! i) \<longrightarrow>
                 (\<exists>r. validate_handler stk now [(''email'', es ! i)] =
                         Inr \<lparr>status = 200, json = ValidateBody r\<rparr> \<and>
                       valid r = valid (rs ! i)))"
    if i: "i < length es" for i
  proof -
    from all2 i have "batch_entry stk emailRegex (es ! i) = Inr (rs ! i, emailRegex)"
      by (rule list_all2_nthD)
    then obtain v where v: "regex_test stk emailRegex (es ! i) = Inr (v, emailRegex)"
      and r: "rs ! i = \<lparr>email = es ! i, valid = v, quality_score = (if v then 0.8 else 0),
                        checks_syntax_valid = v\<rparr>"
      by (auto dest: batch_entry_Inr)
    from i len have "rs ! i \<in> set rs" by simp
    with room have "nesting (email (rs ! i)) \<le> stringify_room stk"
      by (auto simp: list_ex_iff not_less)
    with r have n: "nesting (es ! i) \<le> stringify_room stk + 2" by simp
    have "get_field [(''email'', es ! i)] ''email'' = es ! i"
      by (simp add: get_field_def)
    with v n have "truthy (es ! i) \<longrightarrow>
                 (\<exists>r. validate_handler stk now [(''email'', es ! i)] =
                         Inr \<lparr>status = 200, json = ValidateBody r\<rparr> \<and> valid r = v)"
      by (auto intro: validate_truthy)
    with v r show ?thesis by simp
  qed
  from resp len each show ?thesis by simp
qed

theorem batch_results_witness:
  "get_field [(''emails'', JArr [JStr ''a@b.com'', JStr ''bad''])] ''emails'' =
     JArr [JStr ''a@b.com'', JStr ''bad''] \<and>
   batch_handler \<lparr>join_room = 1000, stringify_room = 1000\<rparr>
       [(''emails'', JArr [JStr ''a@b.com'', JStr ''bad''])] =
     Inr \<lparr>status = 200,
          json = BatchBody
            \<lparr>results =
               [\<lparr>email = JStr ''a@b.com'', valid = True, quality_score = 0.8,
                 checks_syntax_valid = True\<rparr>,
                \<lparr>email = JStr ''bad'', valid = False, quality_score = 0,
                 checks_syntax_valid = False\<rparr>],
             total = 2, valid_count = 1, processing_time_ms = 50\<rparr>\<rparr> \<and>
   regex_test \<lparr>join_room = 1000, stringify_room = 1000\<rparr> emailRegex (JStr ''a@b.com'') =
     Inr (True, emailRegex) \<and>
   regex_test \<lparr>join_room = 1000, stringify_room = 1000\<rparr> emailRegex (JStr ''bad'') =
     Inr (False, emailRegex)"
proof -
  let ?stk = "\<lparr>join_room = 1000, stringify_room = 1000\<rparr>"
  let ?body = "[(''emails'', JArr [JStr ''a@b.com'', JStr ''bad''])]"
  let ?rs = "[\<lparr>email = JStr ''a@b.com'', valid = True, quality_score = 0.8,
                 checks_syntax_valid = True\<rparr>,
                \<lparr>email = JStr ''bad'', valid = False, quality_score = 0,
                 checks_syntax_valid = False\<rparr>]"
  let ?resp = "\<lparr>status = 200,
          json = BatchBody \<lparr>results = ?rs, total = 2, valid_count = 1,
                            processing_time_ms = 50\<rparr>\<rparr>"
  have f: "get_field ?body ''emails'' = JArr [JStr ''a@b.com'', JStr ''bad'']"
    by (simp add: get_field_def)
  have a: "accepted_pattern ''a@b.com''"
    by (simp add: accepted_pattern_def local_part_def domain_part_def is_space_def)
  have b: "\<not> accepted_pattern ''bad''"
    by (simp add: accepted_pattern_def)
  have r: "batch_handler ?stk ?body = Inr ?resp"
    using a b
    by (simp add: batch_handler_def batch_array [OF f] batch_entry_emailRegex)
  from batch_results [OF f r, of "''2024-01-01T00:00:00.000Z''"]
  obtain b where b: "?resp = \<lparr>status = 200, json = BatchBody b\<rparr>"
    and e: "\<forall>i<length [JStr ''a@b.com'', JStr ''bad''].
              email (results b ! i) = [JStr ''a@b.com'', JStr ''bad''] ! i \<and>
              regex_test ?stk emailRegex ([JStr ''a@b.com'', JStr ''bad''] ! i) =
                Inr (valid (results b ! i), emailRegex) \<and>
              (truthy ([JStr ''a@b.com'', JStr ''bad''] ! i) \<longrightarrow>
                 (\<exists>r. validate_handler ?stk ''2024-01-01T00:00:00.000Z''
                         [(''email'', [JStr ''a@b.com'', JStr ''bad''] ! i)] =
                         Inr \<lparr>status = 200, json = ValidateBody r\<rparr> \<and>
                       valid r = valid (results b ! i)))"
    by blast
  from b have rb: "results b = ?rs" by auto
  from e [rule_format, of 0] rb
  have "regex_test ?stk emailRegex (JStr ''a@b.com'') = Inr (True, emailRegex)"
    by simp
  moreover
  from e [rule_format, of 1] rb
  have "regex_test ?stk emailRegex (JStr ''bad'') = Inr (False, emailRegex)"
    by simp
  ultimately show ?thesis using f r by simp
qed

text \<open>
  Claim C2. In the ValidationResult of \<open>/validate\<close> and in every element of the results of
  \<open>/batch\<close>, \<open>quality_score\<close> is 0.8 when \<open>valid\<close> holds and 0 otherwise, and
  \<open>checks.syntax.valid\<close> equals \<open>valid\<close>: \<open>valid\<close>, \<open>quality_score == 0.8\<close> and
  \<open>checks.syntax.valid\<close> are equivalent.
\<close>

theorem results_consistent:
  "(validate_handler stk now req_body = Inr \<lparr>status = st, json = ValidateBody v\<rparr> \<longrightarrow>
      quality_score v = (if valid v then 0.8 else 0) \<and> checks_syntax_valid v = valid v \<and>
      (valid v \<longleftrightarrow> quality_score v = 0.8) \<and>
      (quality_score v = 0.8 \<longleftrightarrow> checks_syntax_valid v)) \<and>
   (batch_handler stk req_body = Inr \<lparr>status = st', json = BatchBody b\<rparr> \<longrightarrow>
      (\<forall>r\<in>set (results b).
         quality_score r = (if valid r then 0.8 else 0) \<and> checks_syntax_valid r = valid r \<and>
         (valid r \<longleftrightarrow> quality_score r = 0.8) \<and>
         (quality_score r = 0.8 \<longleftrightarrow> checks_syntax_valid r)))"
proof (rule conjI; rule impI)
  assume a: "validate_handler stk now req_body = Inr \<lparr>status = st, json = ValidateBody v\<rparr>"
  show "quality_score v = (if valid v then 0.8 else 0) \<and> checks_syntax_valid v = valid v \<and>
      (valid v \<longleftrightarrow> quality_score v = 0.8) \<and>
      (quality_score v = 0.8 \<longleftrightarrow> checks_syntax_valid v)"
  proof (cases "truthy (get_field req_body ''email'')")
    case False
    with a show ?thesis by (simp add: validate_handler_def)
  next
    case True
    show ?thesis
    proof (cases "regex_test stk emailRegex (get_field req_body ''email'')")
      case (Inl e)
      with a True show ?thesis by (simp add: validate_handler_def)
    next
      case (Inr p)
      obtain t re where p: "p = (t, re)" by (cases p)
      show ?thesis
      proof (cases "stringify_room stk + 2 < nesting (get_field req_body ''email'')")
        case deep: True
        with a True Inr p show ?thesis by (simp add: validate_handler_def)
      next
        case False
        with a True Inr p
        have "v = \<lparr>email = get_field req_body ''email'', valid = t,
                   quality_score = (if t then 0.8 else 0),
                   checks_syntax_valid = t,
                   metadata_processing_time_ms = 10,
                   metadata_timestamp = now,
                   response_note = ''Simplified validation - full features coming soon!''\<rparr>"
          by (simp add: validate_handler_def)
        then show ?thesis by simp
      qed
    qed
  qed
next
  assume a: "batch_handler stk req_body = Inr \<lparr>status = st', json = BatchBody b\<rparr>"
  have "quality_score r = (if valid r then 0.8 else 0) \<and> checks_syntax_valid r = valid r \<and>
         (valid r \<longleftrightarrow> quality_score r = 0.8) \<and>
         (quality_score r = 0.8 \<longleftrightarrow> checks_syntax_valid r)"
    if r: "r \<in> set (results b)" for r
  proof (cases "isArray (get_field req_body ''emails'')")
    case False
    with a show ?thesis by (simp add: batch_handler_def batch_not_array emails_required_def)
  next
    case True
    then obtain es where es: "get_field req_body ''emails'' = JArr es"
      by (cases "get_field req_body ''emails''") simp_all
    from batch_answer [OF es a] obtain rs
      where all2: "list_all2 (\<lambda>x y. batch_entry stk emailRegex x = Inr (y, emailRegex)) es rs"
        and b: "results b = rs"
      by auto
    with r obtain x where "batch_entry stk emailRegex x = Inr (r, emailRegex)"
      by (auto simp: list_all2_conv_all_nth in_set_conv_nth)
    then obtain t where "r = \<lparr>email = x, valid = t, quality_score = (if t then 0.8 else 0),
                              checks_syntax_valid = t\<rparr>"
      by (auto dest: batch_entry_Inr)
    then show ?thesis by simp
  qed
  then show "\<forall>r\<in>set (results b).
         quality_score r = (if valid r then 0.8 else 0) \<and> checks_syntax_valid r = valid r \<and>
         (valid r \<longleftrightarrow> quality_score r = 0.8) \<and>
         (quality_score r = 0.8 \<longleftrightarrow> checks_syntax_valid r)"
    by blast
qed

theorem results_consistent_witness:
  "validate_handler \<lparr>join_room = 1000, stringify_room = 1000\<rparr> ''2024-01-01T00:00:00.000Z''
       [(''email'', JStr ''a@b.com''), (''emails'', JArr [JStr ''a@b.com'', JStr ''bad''])] =
     Inr \<lparr>status = 200,
          json = ValidateBody
            \<lparr>email = JStr ''a@b.com'', valid = True, quality_score = 0.8,
             checks_syntax_valid = True,
             metadata_processing_time_ms = 10,
             metadata_timestamp = ''2024-01-01T00:00:00.000Z'',
             response_note = ''Simplified validation - full features coming soon!''\<rparr>\<rparr> \<and>
   batch_handler \<lparr>join_room = 1000, stringify_room = 1000\<rparr>
       [(''email'', JStr ''a@b.com''), (''emails'', JArr [JStr ''a@b.com'', JStr ''bad''])] =
     Inr \<lparr>status = 200,
          json = BatchBody
            \<lparr>results =
               [\<lparr>email = JStr ''a@b.com'', valid = True, quality_score = 0.8,
                 checks_syntax_valid = True\<rparr>,
                \<lparr>email = JStr ''bad'', valid = False, quality_score = 0,
                 checks_syntax_valid = False\<rparr>],
             total = 2, valid_count = 1, processing_time_ms = 50\<rparr>\<rparr>"
proof -
  let ?stk = "\<lparr>join_room = 1000, stringify_room = 1000\<rparr>"
  let ?body = "[(''email'', JStr ''a@b.com''), (''emails'', JArr [JStr ''a@b.com'', JStr ''bad''])]"
  have f: "get_field ?body ''emails'' = JArr [JStr ''a@b.com'', JStr ''bad'']"
    and g: "get_field ?body ''email'' = JStr ''a@b.com''"
    by (simp_all add: get_field_def)
  have a: "accepted_pattern ''a@b.com''"
    by (simp add: accepted_pattern_def local_part_def domain_part_def is_space_def)
  have b: "\<not> accepted_pattern ''bad''"
    by (simp add: accepted_pattern_def)
  have r: "batch_handler ?stk ?body =
     Inr \<lparr>status = 200,
          json = BatchBody
            \<lparr>results =
               [\<lparr>email = JStr ''a@b.com'', valid = True, quality_score = 0.8,
                 checks_syntax_valid = True\<rparr>,
                \<lparr>email = JStr ''bad'', valid = False, quality_score = 0,
                 checks_syntax_valid = False\<rparr>],
             total = 2, valid_count = 1, processing_time_ms = 50\<rparr>\<rparr>"
    using a b
    by (simp add: batch_handler_def batch_array [OF f] batch_entry_emailRegex)
  have v: "validate_handler ?stk ''2024-01-01T00:00:00.000Z'' ?body =
     Inr \<lparr>status = 200,
          json = ValidateBody
            \<lparr>email = JStr ''a@b.com'', valid = True, quality_score = 0.8,
             checks_syntax_valid = True,
             metadata_processing_time_ms = 10,
             metadata_timestamp = ''2024-01-01T00:00:00.000Z'',
             response_note = ''Simplified validation - full features coming soon!''\<rparr>\<rparr>"
    using a by (simp add: validate_string [OF _ g])
  from v r results_consistent [of ?stk "''2024-01-01T00:00:00.000Z''" ?body 200 _ 200]
  show ?thesis by simp
qed




lemma convertible_object: "convertible stk (JObj kvs) \<longleftrightarrow> ''toString'' \<notin> fst ` set kvs"
  by (simp add: convertible_def)









section \<open>The error handler\<close>

text \<open>
  Claim C6. The response status is the error's \<open>statusCode\<close>, or else its \<open>status\<close>, when
  the error has one, and 500 otherwise; the \<open>error\<close> field of the body is the error's name
  when it has one and \<open>INTERNAL_SERVER_ERROR\<close> otherwise. The error has such a property
  when the property holds a truthy value, which is what \<open>||\<close> tests. The body has a
  \<open>stack\<close> field exactly when \<open>NODE_ENV\<close> is \<open>development\<close>: never in production, and
  never outside development mode.
\<close>

theorem errorHandler_response:
  "res_status (snd (errorHandler NODE_ENV err req)) =
     (if truthy (err_statusCode err) then err_statusCode err
      else if truthy (err_status err) then err_status err
      else JNum ''500'') \<and>
   res_error (snd (errorHandler NODE_ENV err req)) =
     (if truthy (err_name err) then err_name err else JStr ''INTERNAL_SERVER_ERROR'') \<and>
   (res_stack (snd (errorHandler NODE_ENV err req)) \<noteq> None \<longleftrightarrow>
      NODE_ENV = Some ''development'') \<and>
   (res_stack (snd (errorHandler NODE_ENV err req)) \<noteq> None \<longrightarrow>
      NODE_ENV \<noteq> Some ''production'') \<and>
   (NODE_ENV \<noteq> Some ''development'' \<longrightarrow>
      res_stack (snd (errorHandler NODE_ENV err req)) = None)"
  by (simp add: errorHandler_def js_or_def)

theorem errorHandler_response_witness:
  "res_status (snd (errorHandler (Some ''production'')
     \<lparr>err_statusCode = JUndefined, err_status = JNum ''413'',
      err_name = JStr ''PayloadTooLargeError'', err_message = JStr ''request entity too large'',
      err_stack = JStr ''PayloadTooLargeError: request entity too large at readStream''\<rparr>
     \<lparr>req_path = ''/api/v1/batch'', req_method = ''POST''\<rparr>)) = JNum ''413'' \<and>
   res_stack (snd (errorHandler (Some ''production'')
     \<lparr>err_statusCode = JUndefined, err_status = JNum ''413'',
      err_name = JStr ''PayloadTooLargeError'', err_message = JStr ''request entity too large'',
      err_stack = JStr ''PayloadTooLargeError: request entity too large at readStream''\<rparr>
     \<lparr>req_path = ''/api/v1/batch'', req_method = ''POST''\<rparr>)) = None \<and>
   res_status (snd (errorHandler (Some ''development'')
     \<lparr>err_statusCode = JUndefined, err_status = JUndefined,
      err_name = JStr ''TypeError'',
      err_message = JStr ''Cannot convert object to primitive value'',
      err_stack = JStr ''TypeError: Cannot convert object to primitive value''\<rparr>
     \<lparr>req_path = ''/api/v1/batch'', req_method = ''POST''\<rparr>)) = JNum ''500'' \<and>
   res_error (snd (errorHandler (Some ''development'')
     \<lparr>err_statusCode = JUndefined, err_status = JUndefined,
      err_name = JStr ''TypeError'',
      err_message = JStr ''Cannot convert object to primitive value'',
      err_stack = JStr ''TypeError: Cannot convert object to primitive value''\<rparr>
     \<lparr>req_path = ''/api/v1/batch'', req_method = ''POST''\<rparr>)) = JStr ''TypeError'' \<and>
   res_stack (snd (errorHandler (Some ''development'')
     \<lparr>err_statusCode = JUndefined, err_status = JUndefined,
      err_name = JStr ''TypeError'',
      err_message = JStr ''Cannot convert object to primitive value'',
      err_stack = JStr ''TypeError: Cannot convert object to primitive value''\<rparr>
     \<lparr>req_path = ''/api/v1/batch'', req_method = ''POST''\<rparr>)) \<noteq> None"
  using errorHandler_response [of "Some ''production''"
     "\<lparr>err_statusCode = JUndefined, err_status = JNum ''413'',
      err_name = JStr ''PayloadTooLargeError'', err_message = JStr ''request entity too large'',
      err_stack = JStr ''PayloadTooLargeError: request entity too large at readStream''\<rparr>"
     "\<lparr>req_path = ''/api/v1/batch'', req_method = ''POST''\<rparr>"]
    errorHandler_response [of "Some ''development''"
     "\<lparr>err_statusCode = JUndefined, err_status = JUndefined,
      err_name = JStr ''TypeError'',
      err_message = JStr ''Cannot convert object to primitive value'',
      err_stack = JStr ''TypeError: Cannot convert object to primitive value''\<rparr>"
     "\<lparr>req_path = ''/api/v1/batch'', req_method = ''POST''\<rparr>"]
  by simp

section \<open>The disposable-domain checker\<close>

lemma js_split_no_sep: "c \<notin> set s \<Longrightarrow> js_split c s = [s]"
  by (induction s) auto

lemma js_split_first: "c \<notin> set l \<Longrightarrow> js_split c (l @ c # d) = l # js_split c d"
  by (induction l) auto

lemma takeWhile_no_sep: "c \<notin> set s \<Longrightarrow> takeWhile (\<lambda>x. x \<noteq> c) s = s"
  by (induction s) auto

lemma js_split_head: "\<exists>ps. js_split c s = takeWhile (\<lambda>x. x \<noteq> c) s # ps"
proof (cases "c \<in> set s")
  case False
  then show ?thesis by (simp add: js_split_no_sep takeWhile_no_sep)
next
  case True
  then obtain l d where "s = l @ c # d" "c \<notin> set l"
    by (auto dest: split_list_first)
  then show ?thesis by (simp add: js_split_first takeWhile_upto)
qed

lemma index_second:
  "index (js_split CHR ''@'' s) 1 = second_piece s"
proof (cases "CHR ''@'' \<in> set s")
  case False
  then show ?thesis by (simp add: js_split_no_sep index_def second_piece_def)
next
  case True
  then obtain l d where s: "s = l @ CHR ''@'' # d" and l: "CHR ''@'' \<notin> set l"
    by (auto dest: split_list_first)
  obtain ps where ps: "js_split CHR ''@'' d = takeWhile (\<lambda>x. x \<noteq> CHR ''@'') d # ps"
    using js_split_head by blast
  from l have "domain_part s = d"
    unfolding s domain_part_def by (simp add: dropWhile_upto)
  with True l ps show ?thesis
    unfolding s by (simp add: js_split_first index_def second_piece_def)
qed

lemma isDisposable_listed: "isDisposable s = listed (second_piece s)"
  unfolding isDisposable_def index_second Let_def
  by (cases "second_piece s") (simp_all add: listed_def)

text \<open>
  Claim C7, amended. For every input string, \<open>isDisposable\<close> returns true if and only if
  the string has an \<open>@\<close> and the substring between its first \<open>@\<close> and the next \<open>@\<close> (or the
  end of the string), lowercased, is one of the four listed domains; for a string with at
  most one \<open>@\<close> that substring is the whole of what follows the \<open>@\<close>. An input with no \<open>@\<close>
  is never reported disposable.
\<close>

theorem isDisposable_second_piece:
  "isDisposable s = listed (second_piece s) \<and>
   (isDisposable s \<longrightarrow> CHR ''@'' \<in> set s) \<and>
   (count_list s CHR ''@'' \<le> 1 \<longrightarrow> isDisposable s = listed (after_first_at s)) \<and>
   length disposableDomains = 4 \<and> distinct disposableDomains"
proof -
  have 1: "isDisposable s = listed (second_piece s)"
    by (rule isDisposable_listed)
  have 2: "isDisposable s \<longrightarrow> CHR ''@'' \<in> set s"
    by (simp add: isDisposable_listed second_piece_def listed_def)
  have 3: "second_piece s = after_first_at s" if le: "count_list s CHR ''@'' \<le> 1"
  proof (cases "CHR ''@'' \<in> set s")
    case False
    then show ?thesis by (simp add: second_piece_def after_first_at_def)
  next
    case True
    then obtain l d where s: "s = l @ CHR ''@'' # d" and l: "CHR ''@'' \<notin> set l"
      by (auto dest: split_list_first)
    from le have "count_list d CHR ''@'' = 0"
      unfolding s by simp
    then have "CHR ''@'' \<notin> set d"
      by (simp add: count_at_zero)
    then have "takeWhile (\<lambda>c. c \<noteq> CHR ''@'') d = d"
      by (rule takeWhile_no_sep)
    moreover from l have "domain_part s = d"
      unfolding s domain_part_def by (simp add: dropWhile_upto)
    ultimately show ?thesis
      using True by (simp add: second_piece_def after_first_at_def)
  qed
  have 4: "length disposableDomains = 4 \<and> distinct disposableDomains"
    by (simp add: disposableDomains_def)
  from 1 2 3 4 show ?thesis by simp
qed

theorem isDisposable_second_piece_witness:
  "isDisposable ''User@TempMail.com'' \<and> CHR ''@'' \<in> set ''User@TempMail.com'' \<and>
   count_list ''User@TempMail.com'' CHR ''@'' \<le> 1 \<and>
   listed (after_first_at ''User@TempMail.com'') \<and>
   \<not> isDisposable ''tempmail.com''"
proof -
  have c: "count_list ''User@TempMail.com'' CHR ''@'' \<le> 1"
    by simp
  have l: "listed (after_first_at ''User@TempMail.com'')"
    by code_simp
  have n: "CHR ''@'' \<notin> set ''tempmail.com''"
    by simp
  from isDisposable_second_piece [of "''User@TempMail.com''"]
    isDisposable_second_piece [of "''tempmail.com''"] c l n
  show ?thesis by blast
qed

text \<open>
  Claim C7 as it is worded fails on a string with two \<open>@\<close>: \<open>a@tempmail.com@x\<close> is reported
  disposable, and neither what follows its first \<open>@\<close> nor what follows its last \<open>@\<close> is a
  listed domain.
\<close>

theorem isDisposable_counterexample:
  "isDisposable ''a@tempmail.com@x'' \<and>
   after_first_at ''a@tempmail.com@x'' = Some ''tempmail.com@x'' \<and>
   \<not> listed (after_first_at ''a@tempmail.com@x'') \<and>
   after_last_at ''a@tempmail.com@x'' = Some ''x'' \<and>
   \<not> listed (after_last_at ''a@tempmail.com@x'')"
  by code_simp

end
